theory Spec2Isabelle
  imports Complex_Main
begin

section \<open>Exceptions of the Python sources\<close>

text \<open>
  Every exception a modelled statement can raise is a value of this type; an operation
  returns \<open>Inl e\<close> where the Python raises \<open>e\<close> and \<open>Inr r\<close> where it returns \<open>r\<close>.
\<close>

datatype error =
  AssertionError | ZeroDivisionError | TypeError | KeyError | IndexError | StopIteration

section \<open>FIFOCache (0x01-caching/1-fifo_cache.py)\<close>

text \<open>
  The object has the dictionary \<open>cache_data\<close> (inherited) and the list \<open>order\<close>.
  The lines \<open>put\<close> prints (\<open>DISCARD: key\<close>) are collected in \<open>discarded\<close>, the
  key of each printed line in printing order, so that the eviction notification is part
  of the state. \<open>None\<close> as a key or an item is \<open>None\<close> of an option type.
\<close>

record ('k, 'v) FIFOCache =
  cache_data :: "'k \<rightharpoonup> 'v"
  order :: "'k list"
  discarded :: "'k list"

text \<open>
  Modelled from the spec: the parent class \<open>BaseCaching\<close> (module \<open>base_caching\<close>) is
  not among the sources. Its constant \<open>MAX_ITEMS\<close> is a parameter of \<open>put\<close>, and its
  constructor is taken to leave \<open>cache_data\<close> empty, the fresh cache of the spec.
  \<open>FIFOCache.__init__\<close> then sets \<open>order\<close> to the empty list.
\<close>

definition FIFOCache_init :: "('k, 'v) FIFOCache" where
  "FIFOCache_init = \<lparr>cache_data = Map.empty, order = [], discarded = []\<rparr>"

text \<open>
  \<open>put\<close>: the result pairs what the call does (returns, or raises) with the object as
  the call leaves it. \<open>self.order[0]\<close> raises IndexError on an empty list, before
  anything is printed; \<open>del self.cache_data[...]\<close> raises KeyError for a key that is
  not in the dictionary, after the line was printed and before \<open>order\<close> is touched.
\<close>

definition put ::
  "int \<Rightarrow> 'k option \<Rightarrow> 'v option \<Rightarrow> ('k, 'v) FIFOCache \<Rightarrow> (error + unit) \<times> ('k, 'v) FIFOCache"
where
  "put MAX_ITEMS key item self =
     (case key of
        None \<Rightarrow> (Inr (), self)
      | Some k \<Rightarrow>
          (case item of
             None \<Rightarrow> (Inr (), self)
           | Some v \<Rightarrow>
               if int (card (dom (cache_data self))) \<ge> MAX_ITEMS \<and> k \<notin> dom (cache_data self)
               then
                 (case order self of
                    [] \<Rightarrow> (Inl IndexError, self)
                  | victim # rest \<Rightarrow>
                      if victim \<in> dom (cache_data self)
                      then (Inr (),
                            \<lparr>cache_data = ((cache_data self)(victim := None))(k \<mapsto> v),
                             order = rest @ [k],
                             discarded = discarded self @ [victim]\<rparr>)
                      else (Inl KeyError, self\<lparr>discarded := discarded self @ [victim]\<rparr>))
               else (Inr (),
                     self\<lparr>cache_data := (cache_data self)(k \<mapsto> v), order := order self @ [k]\<rparr>)))"

text \<open>\<open>get\<close> returns the stored item or \<open>None\<close>; it changes nothing.\<close>

definition get :: "'k option \<Rightarrow> ('k, 'v) FIFOCache \<Rightarrow> 'v option" where
  "get key self =
     (case key of
        None \<Rightarrow> None
      | Some k \<Rightarrow> if k \<in> dom (cache_data self) then cache_data self k else None)"

text \<open>
  A client's sequence of \<open>put\<close> calls, as the interpreter runs it: the first exception
  ends the sequence.
\<close>

fun put_all ::
  "int \<Rightarrow> ('k option \<times> 'v option) list \<Rightarrow> ('k, 'v) FIFOCache \<Rightarrow> (error + unit) \<times> ('k, 'v) FIFOCache"
where
  "put_all MAX_ITEMS [] self = (Inr (), self)"
| "put_all MAX_ITEMS ((key, item) # calls) self =
     (case put MAX_ITEMS key item self of
        (Inl e, self') \<Rightarrow> (Inl e, self')
      | (Inr u, self') \<Rightarrow> put_all MAX_ITEMS calls self')"

text \<open>
  Any client of the cache: a sequence of \<open>put\<close> and \<open>get\<close> calls in which the client
  may catch an exception and go on with the object as the failed call left it.
\<close>

datatype ('k, 'v) call = Put "'k option" "'v option" | Get "'k option"

fun run_calls :: "int \<Rightarrow> ('k, 'v) call list \<Rightarrow> ('k, 'v) FIFOCache \<Rightarrow> ('k, 'v) FIFOCache" where
  "run_calls MAX_ITEMS [] self = self"
| "run_calls MAX_ITEMS (Put key item # calls) self =
     run_calls MAX_ITEMS calls (snd (put MAX_ITEMS key item self))"
| "run_calls MAX_ITEMS (Get key # calls) self = run_calls MAX_ITEMS calls self"

section \<open>Argument values\<close>

text \<open>
  The pagination methods take untyped Python arguments and test their type at run time.
  An argument is an \<open>int\<close>, a \<open>bool\<close> (a subclass of \<open>int\<close>: \<open>True\<close> counts as 1,
  \<open>False\<close> as 0), a string (standing for every value that is not an \<open>int\<close>), or
  \<open>None\<close>.
\<close>

datatype pyval = PInt int | PBool bool | PStr string | PNone

text \<open>
  \<open>as_int v\<close> is the integer an instance of \<open>int\<close> computes with, and \<open>None\<close> exactly
  when \<open>isinstance(v, int)\<close> is false.
\<close>

fun as_int :: "pyval \<Rightarrow> int option" where
  "as_int (PInt i) = Some i"
| "as_int (PBool b) = Some (if b then 1 else 0)"
| "as_int (PStr s) = None"
| "as_int PNone = None"

text \<open>\<open>isinstance(v, int) and v > 0\<close>, the test of the assertions.\<close>

definition is_positive_int :: "pyval \<Rightarrow> bool" where
  "is_positive_int v = (case as_int v of None \<Rightarrow> False | Some i \<Rightarrow> i > 0)"

text \<open>
  The slice \<open>xs[start:stop]\<close> of a list, for any two integers: a negative bound counts
  from the end, and both bounds are clamped to the list.
\<close>

definition py_slice :: "'a list \<Rightarrow> int \<Rightarrow> int \<Rightarrow> 'a list" where
  "py_slice xs start stop =
     (let n = int (length xs);
          lo = (if start < 0 then max (start + n) 0 else min start n);
          hi = (if stop < 0 then max (stop + n) 0 else min stop n)
      in take (nat (hi - lo)) (drop (nat lo) xs))"

section \<open>Simple pagination (0x00-pagination/1-simple_pagination.py)\<close>

text \<open>
  The server object has one attribute, the cached dataset. The CSV file is a parameter
  of every operation that may read it: \<open>DATA_FILE\<close> is the list of rows the reader
  yields, the header row first. The file is taken to exist and to be readable.
\<close>

record 'r Server =
  private_dataset :: "'r list option"

definition Server_init :: "'r Server" where
  "Server_init = \<lparr>private_dataset = None\<rparr>"

definition index_range :: "int \<Rightarrow> int \<Rightarrow> int \<times> int" where
  "index_range page page_size =
     (let start_index = (page - 1) * page_size;
          end_index = start_index + page_size
      in (start_index, end_index))"

text \<open>
  \<open>dataset\<close>: \<open>next(reader)\<close> skips the header and raises StopIteration on a file
  with no row at all; the attribute is then still \<open>None\<close>.
\<close>

definition dataset :: "'r list \<Rightarrow> 'r Server \<Rightarrow> (error + 'r list) \<times> 'r Server" where
  "dataset DATA_FILE self =
     (case private_dataset self of
        None \<Rightarrow>
          (case DATA_FILE of
             [] \<Rightarrow> (Inl StopIteration, self)
           | header # rows \<Rightarrow> (Inr rows, self\<lparr>private_dataset := Some rows\<rparr>))
      | Some rows \<Rightarrow> (Inr rows, self))"

definition get_page ::
  "'r list \<Rightarrow> pyval \<Rightarrow> pyval \<Rightarrow> 'r Server \<Rightarrow> (error + 'r list) \<times> 'r Server"
where
  "get_page DATA_FILE page page_size self =
     (case as_int page of
        None \<Rightarrow> (Inl AssertionError, self)
      | Some p \<Rightarrow>
          if \<not> p > 0 then (Inl AssertionError, self)
          else
            (case as_int page_size of
               None \<Rightarrow> (Inl AssertionError, self)
             | Some n \<Rightarrow>
                 if \<not> n > 0 then (Inl AssertionError, self)
                 else
                   (case dataset DATA_FILE self of
                      (Inl e, self') \<Rightarrow> (Inl e, self')
                    | (Inr rows, self') \<Rightarrow>
                        (case index_range p n of
                           (start_index, end_index) \<Rightarrow>
                             if start_index \<ge> int (length rows) then (Inr [], self')
                             else (Inr (py_slice rows start_index end_index), self')))))"

text \<open>
  A client reading the pages numbered \<open>pages\<close> one after the other on the same server
  object and concatenating what the calls return.
\<close>

fun get_pages ::
  "'r list \<Rightarrow> int list \<Rightarrow> int \<Rightarrow> 'r Server \<Rightarrow> (error + 'r list) \<times> 'r Server"
where
  "get_pages DATA_FILE [] page_size self = (Inr [], self)"
| "get_pages DATA_FILE (page # pages) page_size self =
     (case get_page DATA_FILE (PInt page) (PInt page_size) self of
        (Inl e, self') \<Rightarrow> (Inl e, self')
      | (Inr rows, self') \<Rightarrow>
          (case get_pages DATA_FILE pages page_size self' of
             (Inl e, self'') \<Rightarrow> (Inl e, self'')
           | (Inr rest, self'') \<Rightarrow> (Inr (rows @ rest), self'')))"

section \<open>Hypermedia pagination (0x00-pagination/2-hypermedia_pagination.py)\<close>

text \<open>
  This file has its own \<open>index_range\<close>, \<open>dataset\<close> and \<open>get_page\<close>. Its \<open>dataset\<close>
  reads every row and keeps \<open>dataset[1:]\<close>, which raises nothing on an empty file.
\<close>

definition index_range_hyper :: "int \<Rightarrow> int \<Rightarrow> int \<times> int" where
  "index_range_hyper page page_size =
     (let start_index = (page - 1) * page_size;
          end_index = page * page_size
      in (start_index, end_index))"

definition dataset_hyper :: "'r list \<Rightarrow> 'r Server \<Rightarrow> 'r list \<times> 'r Server" where
  "dataset_hyper DATA_FILE self =
     (case private_dataset self of
        None \<Rightarrow> (drop 1 DATA_FILE, self\<lparr>private_dataset := Some (drop 1 DATA_FILE)\<rparr>)
      | Some rows \<Rightarrow> (rows, self))"

definition get_page_hyper ::
  "'r list \<Rightarrow> pyval \<Rightarrow> pyval \<Rightarrow> 'r Server \<Rightarrow> (error + 'r list) \<times> 'r Server"
where
  "get_page_hyper DATA_FILE page page_size self =
     (case as_int page of
        None \<Rightarrow> (Inl AssertionError, self)
      | Some p \<Rightarrow>
          if \<not> p > 0 then (Inl AssertionError, self)
          else
            (case as_int page_size of
               None \<Rightarrow> (Inl AssertionError, self)
             | Some n \<Rightarrow>
                 if \<not> n > 0 then (Inl AssertionError, self)
                 else
                   (case index_range_hyper p n of
                      (start_index, end_index) \<Rightarrow>
                        (case dataset_hyper DATA_FILE self of
                           (rows, self') \<Rightarrow>
                             if start_index \<ge> int (length rows) then (Inr [], self')
                             else (Inr (py_slice rows start_index end_index), self')))))"

text \<open>
  The dictionary \<open>get_hyper\<close> returns. The key \<open>page\<close> holds the argument as it was
  passed. \<open>math.ceil(len(...) / page_size)\<close> divides two integers into a float; the model
  takes the quotient as a real number, which the float equals or rounds on the same side of
  every integer as long as both numbers are below \<open>2 ^ 53\<close>, as the length of a list is.
\<close>

record 'r hyper_page =
  hp_page_size :: int
  hp_page :: pyval
  hp_data :: "'r list"
  hp_next_page :: "int option"
  hp_prev_page :: "int option"
  hp_total_pages :: int

definition get_hyper ::
  "'r list \<Rightarrow> pyval \<Rightarrow> pyval \<Rightarrow> 'r Server \<Rightarrow> (error + 'r hyper_page) \<times> 'r Server"
where
  "get_hyper DATA_FILE page page_size self =
     (case get_page_hyper DATA_FILE page page_size self of
        (Inl e, self') \<Rightarrow> (Inl e, self')
      | (Inr page_data, self') \<Rightarrow>
          (case (as_int page, as_int page_size) of
             (Some p, Some n) \<Rightarrow>
               (case dataset_hyper DATA_FILE self' of
                  (rows, self'') \<Rightarrow>
                    (Inr \<lparr>hp_page_size = int (length page_data),
                          hp_page = page,
                          hp_data = page_data,
                          hp_next_page = (if p * n < int (length rows) then Some (p + 1) else None),
                          hp_prev_page = (if p > 1 then Some (p - 1) else None),
                          hp_total_pages = \<lceil>real (length rows) / real_of_int n\<rceil>\<rparr>,
                     self''))
           | _ \<Rightarrow> (Inl TypeError, self')))"

section \<open>Hypermedia pagination, second version (2-hypermedia_pagination.py)\<close>

text \<open>
  The file at the top of the repository imports \<open>index_range\<close> from
  0x00-pagination/0-simple_helper_function.py, where it is a loop over \<open>range(page)\<close>.
\<close>

fun index_range_loop :: "nat \<Rightarrow> int \<Rightarrow> int \<times> int \<Rightarrow> int \<times> int" where
  "index_range_loop 0 page_size (start_index, end_index) = (start_index, end_index)"
| "index_range_loop (Suc i) page_size (start_index, end_index) =
     index_range_loop i page_size (end_index, end_index + page_size)"

definition index_range_helper :: "int \<Rightarrow> int \<Rightarrow> int \<times> int" where
  "index_range_helper page page_size = index_range_loop (nat page) page_size (0, 0)"

text \<open>\<open>dataset\<close> skips the header with \<open>next(reader)\<close>, as the simple server does.\<close>

definition dataset_top :: "'r list \<Rightarrow> 'r Server \<Rightarrow> (error + 'r list) \<times> 'r Server" where
  "dataset_top DATA_FILE self =
     (case private_dataset self of
        None \<Rightarrow>
          (case DATA_FILE of
             [] \<Rightarrow> (Inl StopIteration, self)
           | header # rows \<Rightarrow> (Inr rows, self\<lparr>private_dataset := Some rows\<rparr>))
      | Some rows \<Rightarrow> (Inr rows, self))"

text \<open>\<open>assert type(value) is int and value > 0\<close>: a \<open>bool\<close> is refused here.\<close>

definition assert_positive_integer_type :: "pyval \<Rightarrow> error + unit" where
  "assert_positive_integer_type v =
     (case v of
        PInt i \<Rightarrow> if i > 0 then Inr () else Inl AssertionError
      | _ \<Rightarrow> Inl AssertionError)"

text \<open>
  \<open>get_page\<close>: slicing a list never raises IndexError, so the handler around the slice
  is never entered.
\<close>

definition get_page_top ::
  "'r list \<Rightarrow> pyval \<Rightarrow> pyval \<Rightarrow> 'r Server \<Rightarrow> (error + 'r list) \<times> 'r Server"
where
  "get_page_top DATA_FILE page page_size self =
     (case assert_positive_integer_type page of
        Inl e \<Rightarrow> (Inl e, self)
      | Inr u \<Rightarrow>
          (case assert_positive_integer_type page_size of
             Inl e \<Rightarrow> (Inl e, self)
           | Inr u' \<Rightarrow>
               (case dataset_top DATA_FILE self of
                  (Inl e, self') \<Rightarrow> (Inl e, self')
                | (Inr rows, self') \<Rightarrow>
                    (case (as_int page, as_int page_size) of
                       (Some p, Some n) \<Rightarrow>
                         (case index_range_helper p n of
                            (start_index, end_index) \<Rightarrow>
                              (Inr (py_slice rows start_index end_index), self'))
                     | _ \<Rightarrow> (Inl TypeError, self')))))"

text \<open>
  \<open>get_hyper\<close> computes \<open>len(self.dataset()) // page_size + 1\<close> before \<open>get_page\<close>
  checks the arguments: the file is loaded first, a \<open>page_size\<close> that is not a number
  raises TypeError and a zero one ZeroDivisionError. \<open>//\<close> on integers rounds down, as
  \<open>div\<close> on \<open>int\<close> does.
\<close>

definition get_hyper_top ::
  "'r list \<Rightarrow> pyval \<Rightarrow> pyval \<Rightarrow> 'r Server \<Rightarrow> (error + 'r hyper_page) \<times> 'r Server"
where
  "get_hyper_top DATA_FILE page page_size self =
     (case dataset_top DATA_FILE self of
        (Inl e, self') \<Rightarrow> (Inl e, self')
      | (Inr rows, self') \<Rightarrow>
          (case as_int page_size of
             None \<Rightarrow> (Inl TypeError, self')
           | Some n \<Rightarrow>
               if n = 0 then (Inl ZeroDivisionError, self')
               else
                 (let total_pages = int (length rows) div n + 1 in
                  case get_page_top DATA_FILE page page_size self' of
                    (Inl e, self'') \<Rightarrow> (Inl e, self'')
                  | (Inr data, self'') \<Rightarrow>
                      (case as_int page of
                         None \<Rightarrow> (Inl TypeError, self'')
                       | Some p \<Rightarrow>
                           (Inr \<lparr>hp_page_size = (if n \<le> int (length data) then n else int (length data)),
                                 hp_page = page,
                                 hp_data = data,
                                 hp_next_page = (if p + 1 \<le> total_pages then Some (p + 1) else None),
                                 hp_prev_page = (if p > 1 then Some (p - 1) else None),
                                 hp_total_pages = total_pages\<rparr>,
                            self'')))))"

section \<open>Deletion-resilient pagination (0x00-pagination/3-hypermedia_del_pagination.py)\<close>

text \<open>
  The server object caches the dataset and the indexed dataset, a dictionary from positions
  to rows. \<open>indexed_dataset\<close> returns the dictionary object itself, so a client can
  delete positions from it between two calls; a state of the server is therefore any
  dictionary in the second attribute. \<open>len\<close> of a dictionary is the number of its keys.
\<close>

record 'r DelServer =
  del_dataset :: "'r list option"
  del_indexed_dataset :: "(int \<rightharpoonup> 'r) option"

definition DelServer_init :: "'r DelServer" where
  "DelServer_init = \<lparr>del_dataset = None, del_indexed_dataset = None\<rparr>"

definition dataset_del :: "'r list \<Rightarrow> 'r DelServer \<Rightarrow> 'r list \<times> 'r DelServer" where
  "dataset_del DATA_FILE self =
     (case del_dataset self of
        None \<Rightarrow> (drop 1 DATA_FILE, self\<lparr>del_dataset := Some (drop 1 DATA_FILE)\<rparr>)
      | Some rows \<Rightarrow> (rows, self))"

definition indexed_dataset ::
  "'r list \<Rightarrow> 'r DelServer \<Rightarrow> (int \<rightharpoonup> 'r) \<times> 'r DelServer"
where
  "indexed_dataset DATA_FILE self =
     (case del_indexed_dataset self of
        None \<Rightarrow>
          (case dataset_del DATA_FILE self of
             (rows, self') \<Rightarrow>
               (let indexed = map_of (map (\<lambda>i. (int i, rows ! i)) [0..<length rows])
                in (indexed, self'\<lparr>del_indexed_dataset := Some indexed\<rparr>)))
      | Some indexed \<Rightarrow> (indexed, self))"

text \<open>
  The \<open>while\<close> loop of \<open>get_hyper_index\<close>, on the values of \<open>data\<close> and
  \<open>current_index\<close>. A stored row is a list, never \<open>None\<close>, so \<open>record is not None\<close>
  holds exactly for the positions in the dictionary.
\<close>

function hyper_index_loop ::
  "(int \<rightharpoonup> 'r) \<Rightarrow> int \<Rightarrow> 'r list \<Rightarrow> int \<Rightarrow> 'r list \<times> int"
where
  "hyper_index_loop indexed_data page_size data current_index =
     (if int (length data) < page_size \<and> current_index < int (card (dom indexed_data))
      then hyper_index_loop indexed_data page_size
             (case indexed_data current_index of None \<Rightarrow> data | Some row \<Rightarrow> data @ [row])
             (current_index + 1)
      else (data, current_index))"
  by pat_completeness auto
termination
  by (relation "measure (\<lambda>(indexed_data, page_size, data, current_index).
        nat (int (card (dom indexed_data)) - current_index))") auto

text \<open>
  The dictionary \<open>get_hyper_index\<close> returns; the key \<open>index\<close> holds the argument as it
  was passed. Comparing a string or \<open>None\<close> with an integer raises TypeError: in the loop
  test for \<open>page_size\<close>, and in the loop test or in the computation of \<open>next_index\<close> for
  an \<open>index\<close> that is neither \<open>None\<close> nor an \<open>int\<close>.
\<close>

record 'r index_page =
  ip_index :: pyval
  ip_next_index :: "int option"
  ip_page_size :: int
  ip_data :: "'r list"

definition get_hyper_index ::
  "'r list \<Rightarrow> pyval \<Rightarrow> pyval \<Rightarrow> 'r DelServer \<Rightarrow> (error + 'r index_page) \<times> 'r DelServer"
where
  "get_hyper_index DATA_FILE index page_size self =
     (case indexed_dataset DATA_FILE self of
        (indexed_data, self') \<Rightarrow>
          (case as_int page_size of
             None \<Rightarrow> (Inl TypeError, self')
           | Some n \<Rightarrow>
               (case (if index \<noteq> PNone then as_int index else Some 0) of
                  None \<Rightarrow> (Inl TypeError, self')
                | Some start \<Rightarrow>
                    (case hyper_index_loop indexed_data n [] start of
                       (data, current_index) \<Rightarrow>
                         (Inr \<lparr>ip_index = index,
                               ip_next_index =
                                 (if current_index < int (card (dom indexed_data))
                                  then Some current_index else None),
                               ip_page_size = int (length data),
                               ip_data = data\<rparr>,
                          self')))))"

section \<open>Properties of the FIFO cache\<close>

subsection \<open>Keys of the dictionary and the order list\<close>

lemma put_keeps_order_cover:
  "dom (cache_data self) \<subseteq> set (order self) \<Longrightarrow>
   dom (cache_data (snd (put MAX_ITEMS key item self))) \<subseteq> set (order (snd (put MAX_ITEMS key item self)))"
  by (auto simp: put_def split: option.splits list.splits)

lemma run_calls_keeps_order_cover:
  "dom (cache_data self) \<subseteq> set (order self) \<Longrightarrow>
   dom (cache_data (run_calls MAX_ITEMS calls self)) \<subseteq> set (order (run_calls MAX_ITEMS calls self))"
proof (induction calls arbitrary: self)
  case Nil
  then show ?case by simp
next
  case (Cons c calls)
  show ?case
  proof (cases c)
    case (Put key item)
    with Cons show ?thesis by (simp add: put_keeps_order_cover)
  next
    case (Get key)
    with Cons show ?thesis by simp
  qed
qed

text \<open>
  What holds in every state reachable from a fresh cache by \<open>put\<close> and \<open>get\<close> calls:
  every key of \<open>cache_data\<close> occurs in \<open>order\<close>, and for a positive \<open>MAX_ITEMS\<close> the
  list is not empty whenever the dictionary holds \<open>MAX_ITEMS\<close> keys or more. The converse
  inclusion is not an invariant, as the next theorem shows.
\<close>

lemma fifo_keys_covered_by_order:
  "0 < MAX_ITEMS \<Longrightarrow>
   dom (cache_data (run_calls MAX_ITEMS calls FIFOCache_init))
     \<subseteq> set (order (run_calls MAX_ITEMS calls FIFOCache_init)) \<and>
   (MAX_ITEMS \<le> int (card (dom (cache_data (run_calls MAX_ITEMS calls FIFOCache_init))))
      \<longrightarrow> order (run_calls MAX_ITEMS calls FIFOCache_init) \<noteq> [])"
proof -
  let ?s = "run_calls MAX_ITEMS calls (FIFOCache_init :: ('a, 'b) FIFOCache)"
  assume pos: "0 < MAX_ITEMS"
  have cover: "dom (cache_data ?s) \<subseteq> set (order ?s)"
    by (rule run_calls_keeps_order_cover) (simp add: FIFOCache_init_def)
  have "order ?s \<noteq> []" if "MAX_ITEMS \<le> int (card (dom (cache_data ?s)))"
  proof -
    from that pos have "0 < card (dom (cache_data ?s))" by linarith
    then have "dom (cache_data ?s) \<noteq> {}" by auto
    with cover show ?thesis by auto
  qed
  with cover show ?thesis by blast
qed

text \<open>
  Claim C10 says that every key of \<open>cache_data\<close> occurs in \<open>order\<close>, so that whenever
  capacity is reached an eviction victim taken from the front of \<open>order\<close> exists. The
  inclusion holds, but \<open>put\<close> appends the key to \<open>order\<close> also when it overwrites, and
  the second copy of an overwritten key outlives the key. With capacity 2: insert A and B,
  overwrite A, read A, insert C and D. The dictionary is then full with the keys C and D,
  every key is in \<open>order\<close>, and the front of \<open>order\<close> is A, no key of the dictionary:
  there is no victim at the front, and the next insertion raises KeyError.
\<close>

theorem fifo_front_of_order_not_cached:
  "run_calls 2 [Put (Some ''A'') (Some (1::nat)), Put (Some ''B'') (Some 2),
                Put (Some ''A'') (Some 3), Get (Some ''A''), Put (Some ''C'') (Some 4),
                Put (Some ''D'') (Some 5)] FIFOCache_init =
     \<lparr>cache_data = [''C'' \<mapsto> 4, ''D'' \<mapsto> 5], order = [''A'', ''C'', ''D''],
      discarded = [''A'', ''B'']\<rparr> \<and>
   (2::int) \<le> int (card (dom [''C'' \<mapsto> 4::nat, ''D'' \<mapsto> 5])) \<and>
   dom [''C'' \<mapsto> 4::nat, ''D'' \<mapsto> 5] \<subseteq> set [''A'', ''C'', ''D''] \<and>
   ''A'' \<notin> dom [''C'' \<mapsto> 4::nat, ''D'' \<mapsto> 5] \<and>
   fst (put 2 (Some ''E'') (Some 6)
         \<lparr>cache_data = [''C'' \<mapsto> 4::nat, ''D'' \<mapsto> 5], order = [''A'', ''C'', ''D''],
          discarded = [''A'', ''B'']\<rparr>) = Inl KeyError"
  by (auto simp: put_def FIFOCache_init_def fun_eq_iff)

subsection \<open>Filling the cache and overflowing it\<close>

lemma put_all_append:
  "put_all M (xs @ ys) s =
     (case put_all M xs s of (Inl e, s') \<Rightarrow> (Inl e, s') | (Inr u, s') \<Rightarrow> put_all M ys s')"
  by (induction xs arbitrary: s) (auto split: prod.splits sum.splits)

lemma put_fresh_key_below_capacity:
  "k \<notin> dom (cache_data s) \<Longrightarrow> int (card (dom (cache_data s))) < M \<Longrightarrow>
   put M (Some k) (Some v) s =
     (Inr (), \<lparr>cache_data = (cache_data s)(k \<mapsto> v), order = order s @ [k],
               discarded = discarded s\<rparr>)"
  by (simp add: put_def)

lemma put_all_below_capacity:
  "finite (dom (cache_data s)) \<Longrightarrow> distinct (map fst kvs) \<Longrightarrow>
   set (map fst kvs) \<inter> dom (cache_data s) = {} \<Longrightarrow>
   int (card (dom (cache_data s))) + int (length kvs) \<le> M \<Longrightarrow>
   put_all M (map (\<lambda>(k, v). (Some k, Some v)) kvs) s =
     (Inr (), \<lparr>cache_data = cache_data s ++ map_of kvs, order = order s @ map fst kvs,
               discarded = discarded s\<rparr>)"
proof (induction kvs arbitrary: s)
  case Nil
  then show ?case by simp
next
  case (Cons kv kvs)
  obtain k v where kv: "kv = (k, v)" by (cases kv)
  define s1 where "s1 = \<lparr>cache_data = (cache_data s)(k \<mapsto> v), order = order s @ [k],
               discarded = discarded s\<rparr>"
  from Cons.prems kv have knew: "k \<notin> dom (cache_data s)" by auto
  from Cons.prems kv have room: "int (card (dom (cache_data s))) < M" by simp
  have step: "put M (Some k) (Some v) s = (Inr (), s1)"
    unfolding s1_def by (rule put_fresh_key_below_capacity [OF knew room])
  have fin1: "finite (dom (cache_data s1))" using Cons.prems(1) by (simp add: s1_def)
  have dis1: "distinct (map fst kvs)" using Cons.prems(2) by simp
  have disj1: "set (map fst kvs) \<inter> dom (cache_data s1) = {}"
    using Cons.prems(2,3) kv by (auto simp: s1_def)
  have card1: "int (card (dom (cache_data s1))) + int (length kvs) \<le> M"
    using Cons.prems(1,4) knew by (simp add: s1_def)
  have knot: "map_of kvs k = None" using Cons.prems(2) kv by (simp add: map_of_eq_None_iff)
  have maps: "cache_data s1 ++ map_of kvs = cache_data s ++ map_of (kv # kvs)"
  proof
    fix x
    show "(cache_data s1 ++ map_of kvs) x = (cache_data s ++ map_of (kv # kvs)) x"
      using knot kv by (cases "x = k") (auto simp: s1_def map_add_def split: option.splits)
  qed
  have ords: "order s1 @ map fst kvs = order s @ map fst (kv # kvs)"
    using kv by (simp add: s1_def)
  have "put_all M (map (\<lambda>(k, v). (Some k, Some v)) (kv # kvs)) s =
        put_all M (map (\<lambda>(k, v). (Some k, Some v)) kvs) s1"
    using step kv by simp
  also have "\<dots> = (Inr (), \<lparr>cache_data = cache_data s1 ++ map_of kvs,
       order = order s1 @ map fst kvs, discarded = discarded s1\<rparr>)"
    by (rule Cons.IH [OF fin1 dis1 disj1 card1])
  also have "\<dots> = (Inr (), \<lparr>cache_data = cache_data s ++ map_of (kv # kvs),
       order = order s @ map fst (kv # kvs), discarded = discarded s\<rparr>)"
    unfolding maps ords by (simp add: s1_def)
  finally show ?case .
qed

text \<open>
  Claim C7. From a fresh cache with a positive capacity \<open>MAX_ITEMS\<close>, inserting
  \<open>MAX_ITEMS + 1\<close> pairs with distinct keys (keys and items not \<open>None\<close>) raises nothing
  and leaves exactly the last \<open>MAX_ITEMS\<close> pairs in the dictionary; exactly one
  \<open>DISCARD\<close> line is printed and it names the key inserted first.
\<close>

theorem fifo_overflow_evicts_first:
  assumes "0 < MAX_ITEMS" and "distinct (map fst kvs)" and "int (length kvs) = MAX_ITEMS + 1"
  shows "put_all MAX_ITEMS (map (\<lambda>(k, v). (Some k, Some v)) kvs) FIFOCache_init =
           (Inr (), \<lparr>cache_data = map_of (tl kvs), order = map fst (tl kvs),
                     discarded = [fst (hd kvs)]\<rparr>)"
proof -
  from assms obtain front kv where kvs: "kvs = front @ [kv]"
    by (cases kvs rule: rev_cases) auto
  obtain k v where kv: "kv = (k, v)" by (cases kv)
  from assms kvs have len: "int (length front) = MAX_ITEMS" by simp
  with assms(1) obtain f0 rest where front: "front = f0 # rest" by (cases front) auto
  define s :: "('a, 'b) FIFOCache"
    where "s = \<lparr>cache_data = map_of front, order = map fst front, discarded = []\<rparr>"
  have dfront: "distinct (map fst front)" using assms(2) kvs by simp
  have filled: "put_all MAX_ITEMS (map (\<lambda>(k, v). (Some k, Some v)) front) FIFOCache_init = (Inr (), s)"
    using put_all_below_capacity [of FIFOCache_init front MAX_ITEMS] dfront len
    by (simp add: FIFOCache_init_def s_def)
  have card: "card (dom (map_of front)) = length front"
    using dfront by (simp add: dom_map_of_conv_image_fst distinct_card flip: set_map)
  have knew: "k \<notin> dom (map_of front)"
    using assms(2) kvs kv by (auto simp: dom_map_of_conv_image_fst)
  have f0in: "fst f0 \<in> dom (map_of front)"
    using front by (auto simp: dom_map_of_conv_image_fst)
  have f0rest: "map_of rest (fst f0) = None"
    using dfront front by (simp add: map_of_eq_None_iff)
  have kf0: "k \<noteq> fst f0" using knew f0in by auto
  have krest: "map_of rest k = None"
    using knew front by (cases f0) (auto simp: dom_def split: if_splits)
  have maps: "((map_of front)(fst f0 := None))(k \<mapsto> v) = map_of (rest @ [(k, v)])"
  proof
    fix x
    show "(((map_of front)(fst f0 := None))(k \<mapsto> v)) x = map_of (rest @ [(k, v)]) x"
      using f0rest krest kf0 front
      by (cases f0) (auto simp: map_add_def split: option.splits)
  qed
  have last: "put MAX_ITEMS (Some k) (Some v) s =
      (Inr (), \<lparr>cache_data = map_of (rest @ [(k, v)]), order = map fst rest @ [k],
                discarded = [fst f0]\<rparr>)"
    using card len knew f0in front unfolding maps [symmetric]
    by (simp add: put_def s_def)
  have "put_all MAX_ITEMS (map (\<lambda>(k, v). (Some k, Some v)) kvs) FIFOCache_init =
        put_all MAX_ITEMS [(Some k, Some v)] s"
    using filled kvs kv by (simp add: put_all_append)
  also have "\<dots> = (Inr (), \<lparr>cache_data = map_of (rest @ [(k, v)]), order = map fst rest @ [k],
                discarded = [fst f0]\<rparr>)"
    using last by simp
  finally show ?thesis using kvs kv front by simp
qed

theorem fifo_overflow_evicts_first_witness:
  "(0::int) < 3 \<and>
   distinct (map fst [(''A'', 1::nat), (''B'', 2), (''C'', 3), (''D'', 4)]) \<and>
   int (length [(''A'', 1::nat), (''B'', 2), (''C'', 3), (''D'', 4)]) = 3 + 1 \<and>
   put_all 3 [(Some ''A'', Some (1::nat)), (Some ''B'', Some 2), (Some ''C'', Some 3),
              (Some ''D'', Some 4)] FIFOCache_init =
     (Inr (), \<lparr>cache_data = map_of [(''B'', 2), (''C'', 3), (''D'', 4)],
               order = [''B'', ''C'', ''D''], discarded = [''A'']\<rparr>)"
  using fifo_overflow_evicts_first
    [of 3 "[(''A'', 1::nat), (''B'', 2), (''C'', 3), (''D'', 4)]"]
  by simp

subsection \<open>Overwriting a key\<close>




subsection \<open>An eviction that raises\<close>

text \<open>
  Claim C3 says that \<open>put\<close> never raises. \<open>put\<close> appends the key to \<open>order\<close> also
  when it overwrites, so an overwritten key is twice in the list; once its first copy
  has been evicted the second copy reaches the front, and the eviction that reads it
  deletes a key the dictionary no longer has. With capacity 3: insert A, B, C, overwrite
  A, insert D, E, F; the insertion of G raises KeyError.
\<close>

theorem fifo_put_raises_KeyError:
  "put_all 3 [(Some ''A'', Some (1::nat)), (Some ''B'', Some 2), (Some ''C'', Some 3),
              (Some ''A'', Some 4), (Some ''D'', Some 5), (Some ''E'', Some 6),
              (Some ''F'', Some 7)] FIFOCache_init =
     (Inr (), \<lparr>cache_data = [''D'' \<mapsto> 5, ''E'' \<mapsto> 6, ''F'' \<mapsto> 7],
               order = [''A'', ''D'', ''E'', ''F''], discarded = [''A'', ''B'', ''C'']\<rparr>) \<and>
   fst (put 3 (Some ''G'') (Some 8)
         \<lparr>cache_data = [''D'' \<mapsto> 5, ''E'' \<mapsto> 6, ''F'' \<mapsto> (7::nat)],
          order = [''A'', ''D'', ''E'', ''F''], discarded = [''A'', ''B'', ''C'']\<rparr>)
     = Inl KeyError"
  by (auto simp: put_def FIFOCache_init_def fun_eq_iff)

section \<open>Properties of classic pagination\<close>

subsection \<open>Reading all pages\<close>

lemma dataset_cached:
  "dataset DATA_FILE self = (Inr rows, self') \<Longrightarrow> dataset DATA_FILE self' = (Inr rows, self')"
  by (auto simp: dataset_def split: option.splits list.splits)

lemma py_slice_page:
  "0 \<le> a \<Longrightarrow> 0 \<le> n \<Longrightarrow> py_slice xs a (a + n) = take (nat n) (drop (nat a) xs)"
  by (auto simp: py_slice_def Let_def min_def)

lemma get_page_loaded:
  assumes "0 < p" and "0 < n" and "dataset DATA_FILE self = (Inr rows, self')"
  shows "get_page DATA_FILE (PInt p) (PInt n) self =
           (Inr (take (nat n) (drop (nat ((p - 1) * n)) rows)), self')"
proof -
  have nonneg: "0 \<le> (p - 1) * n" using assms by simp
  show ?thesis
    using assms nonneg
    by (simp add: get_page_def index_range_def Let_def py_slice_page)
qed

lemma get_pages_from:
  assumes "0 < n" and "dataset DATA_FILE self = (Inr rows, self')"
  shows "fst (get_pages DATA_FILE (map int [Suc i..<Suc (i + k)]) n self) =
           Inr (take (k * nat n) (drop (i * nat n) rows))"
  using assms(2)
proof (induction k arbitrary: i self)
  case 0
  then show ?case by simp
next
  case (Suc k)
  have cached: "dataset DATA_FILE self' = (Inr rows, self')"
    using Suc.prems by (rule dataset_cached)
  have first: "get_page DATA_FILE (PInt (int (Suc i))) (PInt n) self =
      (Inr (take (nat n) (drop (i * nat n) rows)), self')"
    using get_page_loaded [of "int (Suc i)" n DATA_FILE self rows self'] assms(1) Suc.prems
    by (simp add: nat_mult_distrib)
  have rest: "fst (get_pages DATA_FILE (map int [Suc (Suc i)..<Suc (Suc i + k)]) n self') =
      Inr (take (k * nat n) (drop (Suc i * nat n) rows))"
    by (rule Suc.IH [OF cached])
  have list: "map int [Suc i..<Suc (i + Suc k)] = int (Suc i) # map int [Suc (Suc i)..<Suc (Suc i + k)]"
    by (simp add: upt_rec [of "Suc i"])
  have join: "take (nat n) (drop (i * nat n) rows) @ take (k * nat n) (drop (Suc i * nat n) rows)
      = take (Suc k * nat n) (drop (i * nat n) rows)"
    by (simp add: take_add add.commute)
  obtain r s where rs: "get_pages DATA_FILE (map int [Suc (Suc i)..<Suc (Suc i + k)]) n self' = (r, s)"
    by (cases "get_pages DATA_FILE (map int [Suc (Suc i)..<Suc (Suc i + k)]) n self'")
  with rest have r: "r = Inr (take (k * nat n) (drop (Suc i * nat n) rows))" by simp
  show ?case
    unfolding list using first rs r join by simp
qed

text \<open>
  Claim C8. Let \<open>rows\<close> be the dataset the server returns, of length \<open>L\<close>, and
  \<open>1 \<le> N \<le> L\<close>. Reading the pages \<open>1, 2, ..., ceil(L / N)\<close> of size \<open>N\<close> with
  \<open>get_page\<close> and concatenating them gives \<open>rows\<close>, in order.
\<close>

theorem get_page_round_trip:
  assumes "dataset DATA_FILE self = (Inr rows, self')"
    and "1 \<le> N" and "N \<le> int (length rows)"
  shows "fst (get_pages DATA_FILE
               (map int [1..<Suc (nat \<lceil>real (length rows) / real_of_int N\<rceil>)]) N self) = Inr rows"
proof -
  define k where "k = nat \<lceil>real (length rows) / real_of_int N\<rceil>"
  have Npos: "0 < N" using assms(2) by simp
  have "real (length rows) / real_of_int N \<le> real_of_int \<lceil>real (length rows) / real_of_int N\<rceil>"
    by (rule le_of_int_ceiling)
  moreover have "0 \<le> \<lceil>real (length rows) / real_of_int N\<rceil>"
  proof -
    have "0 \<le> real (length rows) / real_of_int N" using Npos by simp
    then have "\<lceil>0::real\<rceil> \<le> \<lceil>real (length rows) / real_of_int N\<rceil>"
      by (rule ceiling_mono)
    then show ?thesis by simp
  qed
  ultimately have "real (length rows) / real_of_int N \<le> real k"
    by (simp add: k_def)
  then have "real (length rows) \<le> real k * real_of_int N"
    using Npos by (simp add: pos_divide_le_eq)
  also have "\<dots> = real (k * nat N)" using Npos by simp
  finally have cover: "length rows \<le> k * nat N" by (simp only: of_nat_le_iff)
  have "fst (get_pages DATA_FILE (map int [Suc 0..<Suc (0 + k)]) N self) =
          Inr (take (k * nat N) (drop (0 * nat N) rows))"
    using Npos assms(1) by (rule get_pages_from)
  with cover show ?thesis by (simp add: k_def)
qed

theorem get_page_round_trip_witness:
  "dataset [''header'', ''a'', ''b'', ''c'', ''d'', ''e''] Server_init =
     (Inr [''a'', ''b'', ''c'', ''d'', ''e''],
      \<lparr>private_dataset = Some [''a'', ''b'', ''c'', ''d'', ''e'']\<rparr>) \<and>
   (1::int) \<le> 2 \<and> 2 \<le> int (length [''a'', ''b'', ''c'', ''d'', ''e'']) \<and>
   fst (get_pages [''header'', ''a'', ''b'', ''c'', ''d'', ''e'']
         (map int [1..<Suc (nat \<lceil>real (length [''a'', ''b'', ''c'', ''d'', ''e''])
                                   / real_of_int 2\<rceil>)]) 2 Server_init)
     = Inr [''a'', ''b'', ''c'', ''d'', ''e'']"
  using get_page_round_trip
    [of "[''header'', ''a'', ''b'', ''c'', ''d'', ''e'']" Server_init
        "[''a'', ''b'', ''c'', ''d'', ''e'']"
        "\<lparr>private_dataset = Some [''a'', ''b'', ''c'', ''d'', ''e'']\<rparr>" 2]
  by (simp add: dataset_def Server_init_def)

subsection \<open>Argument validation\<close>

text \<open>
  Claim C5, as the code has it. When \<open>page\<close> or \<open>page_size\<close> is not a positive integer,
  \<open>get_page\<close> (in its three versions) and \<open>get_hyper\<close> of
  0x00-pagination/2-hypermedia_pagination.py raise AssertionError and leave the server
  object as it was: the dataset has not been loaded.
\<close>

theorem invalid_arguments_fail_before_mutation:
  assumes "\<not> (is_positive_int page \<and> is_positive_int page_size)"
  shows "get_page DATA_FILE page page_size self = (Inl AssertionError, self) \<and>
         get_page_hyper DATA_FILE page page_size self = (Inl AssertionError, self) \<and>
         get_page_top DATA_FILE page page_size self = (Inl AssertionError, self) \<and>
         get_hyper DATA_FILE page page_size self = (Inl AssertionError, self)"
  using assms
  by (cases page; cases page_size)
     (auto simp: is_positive_int_def get_page_def get_page_hyper_def get_page_top_def
        get_hyper_def assert_positive_integer_type_def split: if_splits)

theorem invalid_arguments_fail_before_mutation_witness:
  "\<not> (is_positive_int (PInt 3) \<and> is_positive_int (PInt 0)) \<and>
   get_page [''header'', ''a'', ''b''] (PInt 3) (PInt 0) Server_init
     = (Inl AssertionError, Server_init) \<and>
   get_page_hyper [''header'', ''a'', ''b''] (PInt 3) (PInt 0) Server_init
     = (Inl AssertionError, Server_init) \<and>
   get_page_top [''header'', ''a'', ''b''] (PInt 3) (PInt 0) Server_init
     = (Inl AssertionError, Server_init) \<and>
   get_hyper [''header'', ''a'', ''b''] (PInt 3) (PInt 0) Server_init
     = (Inl AssertionError, Server_init)"
  using invalid_arguments_fail_before_mutation
    [of "PInt 3" "PInt 0" "[''header'', ''a'', ''b'']" Server_init]
  by (simp add: is_positive_int_def)

text \<open>
  The claim as the spec states it includes \<open>get_hyper_index\<close>, which checks nothing:
  with \<open>page_size = 0\<close> it returns an empty page.
\<close>

theorem get_hyper_index_zero_page_size_counterexample:
  "\<not> is_positive_int (PInt 0) \<and>
   fst (get_hyper_index [''header'', ''a'', ''b'', ''c''] (PInt 0) (PInt 0) DelServer_init) =
     Inr \<lparr>ip_index = PInt 0, ip_next_index = Some 0, ip_page_size = 0, ip_data = []\<rparr>"
  by (simp add: is_positive_int_def get_hyper_index_def indexed_dataset_def dataset_del_def
      DelServer_init_def Let_def upt_rec hyper_index_loop.simps)

subsection \<open>The number of pages\<close>

text \<open>
  On four rows and pages of two rows, \<open>get_hyper\<close> of
  0x00-pagination/2-hypermedia_pagination.py reports two pages.
\<close>

lemma get_hyper_total_pages_example:
  "fst (get_hyper [''header'', ''a'', ''b'', ''c'', ''d''] (PInt 1) (PInt 2) Server_init) =
     Inr \<lparr>hp_page_size = 2, hp_page = PInt 1, hp_data = [''a'', ''b''],
           hp_next_page = Some 2, hp_prev_page = None, hp_total_pages = 2\<rparr>"
  by (simp add: get_hyper_def get_page_hyper_def dataset_hyper_def Server_init_def
      index_range_hyper_def py_slice_def)

text \<open>
  Claim C6 says that \<open>total_pages\<close> is \<open>ceil(L / page_size)\<close>. \<open>get_hyper\<close> of
  2-hypermedia_pagination.py computes \<open>L // page_size + 1\<close>, one page too many whenever
  \<open>page_size\<close> divides \<open>L\<close>: on four rows and pages of two rows it reports three pages,
  and the ceiling is two.
\<close>

theorem get_hyper_top_total_pages_one_too_many:
  "fst (get_hyper_top [''header'', ''a'', ''b'', ''c'', ''d''] (PInt 1) (PInt 2) Server_init) =
     Inr \<lparr>hp_page_size = 2, hp_page = PInt 1, hp_data = [''a'', ''b''],
           hp_next_page = Some 2, hp_prev_page = None, hp_total_pages = 3\<rparr> \<and>
   \<lceil>real (length [''a'', ''b'', ''c'', ''d'']) / real_of_int 2\<rceil> = 2"
  by (simp add: get_hyper_top_def get_page_top_def dataset_top_def Server_init_def
      assert_positive_integer_type_def index_range_helper_def py_slice_def)

section \<open>Properties of deletion-resilient pagination\<close>

subsection \<open>The size of the snapshot\<close>

lemma indexed_dom: "dom (map_of (map (\<lambda>i. (int i, rows ! i)) [0..<length rows])) = int ` {0..<length rows}"
  by (auto simp: dom_map_of_conv_image_fst image_iff)

lemma indexed_card: "card (dom (map_of (map (\<lambda>i. (int i, rows ! i)) [0..<length rows]))) = length rows"
  unfolding indexed_dom by (simp add: card_image)

lemma indexed_dataset_fresh_size:
  "card (dom (fst (indexed_dataset DATA_FILE DelServer_init))) = length DATA_FILE - 1"
  using indexed_card [of "drop 1 DATA_FILE"]
  by (simp add: indexed_dataset_def dataset_del_def DelServer_init_def Let_def)

text \<open>
  Claim C4 says that the snapshot has at most 1000 entries, as the docstring of
  \<open>indexed_dataset\<close> does. The code indexes every row: a file of a header and 1001 rows
  gives a snapshot of 1001 entries.
\<close>

theorem indexed_dataset_not_truncated:
  "card (dom (fst (indexed_dataset (replicate 1002 row) DelServer_init))) = 1001"
  by (simp add: indexed_dataset_fresh_size)

subsection \<open>The index of the response\<close>

text \<open>
  Claim C9 says that the \<open>index\<close> of the response is the start index the page was read
  from, 0 when the argument is \<open>None\<close>. The code returns the argument: the page below
  starts at position 0 and its \<open>index\<close> is \<open>None\<close>.
\<close>

theorem get_hyper_index_returns_None_index:
  "fst (get_hyper_index [''header'', ''a'', ''b'', ''c''] PNone (PInt 2) DelServer_init) =
     Inr \<lparr>ip_index = PNone, ip_next_index = Some 2, ip_page_size = 2,
           ip_data = [''a'', ''b'']\<rparr>"
  by (simp add: get_hyper_index_def indexed_dataset_def dataset_del_def DelServer_init_def
      Let_def upt_rec hyper_index_loop.simps)

subsection \<open>Pages over a snapshot with gaps\<close>

text \<open>
  The example of the spec: positions 2 and 5 are deleted from a snapshot of ten rows;
  the page of size 3 from position 0 has the rows of positions 0, 1 and 3 and the next
  index is 4.
\<close>

lemma get_hyper_index_skips_gap_example:
  "fst (get_hyper_index 
       [''header'', ''r0'', ''r1'', ''r2'', ''r3'', ''r4'', ''r5'', ''r6'', ''r7'', ''r8'', ''r9'']
       (PInt 0) (PInt 3)
     \<lparr>del_dataset = Some 
       [''r0'', ''r1'', ''r2'', ''r3'', ''r4'', ''r5'', ''r6'', ''r7'', ''r8'', ''r9''],
      del_indexed_dataset = Some ((fst (indexed_dataset 
       [''header'', ''r0'', ''r1'', ''r2'', ''r3'', ''r4'', ''r5'', ''r6'', ''r7'', ''r8'', ''r9'']
      
          DelServer_init))(2 := None, 5 := None))\<rparr>) =
   Inr \<lparr>ip_index = PInt 0, ip_next_index = Some 4, ip_page_size = 3,
         ip_data = [''r0'', ''r1'', ''r3'']\<rparr>"
  by (simp add: get_hyper_index_def indexed_dataset_def dataset_del_def DelServer_init_def
      Let_def upt_rec hyper_index_loop.simps)

text \<open>
  Claim C1 says that a page has \<open>min(page_size, number of live records at or after the
  start)\<close> records. The loop stops at \<open>len(indexed_data)\<close>, the number of keys, which
  is below the highest position once a position is deleted. With positions 2 and 5
  deleted from ten, the bound is 8: the page of size 3 from position 7 has one row and no
  next index, and the three live positions at or after 7 are 7, 8 and 9.
\<close>

theorem get_hyper_index_misses_live_records:
  "fst (get_hyper_index 
       [''header'', ''r0'', ''r1'', ''r2'', ''r3'', ''r4'', ''r5'', ''r6'', ''r7'', ''r8'', ''r9'']
       (PInt 7) (PInt 3)
     \<lparr>del_dataset = Some 
       [''r0'', ''r1'', ''r2'', ''r3'', ''r4'', ''r5'', ''r6'', ''r7'', ''r8'', ''r9''],
      del_indexed_dataset = Some ((fst (indexed_dataset 
       [''header'', ''r0'', ''r1'', ''r2'', ''r3'', ''r4'', ''r5'', ''r6'', ''r7'', ''r8'', ''r9'']
      
          DelServer_init))(2 := None, 5 := None))\<rparr>) =
   Inr \<lparr>ip_index = PInt 7, ip_next_index = None, ip_page_size = 1, ip_data = [''r7'']\<rparr> \<and>
   {i \<in> dom ((fst (indexed_dataset 
       [''header'', ''r0'', ''r1'', ''r2'', ''r3'', ''r4'', ''r5'', ''r6'', ''r7'', ''r8'', ''r9'']
      
          DelServer_init))(2 := None, 5 := None)). 7 \<le> i} = {7, 8, 9}"
proof -
  have page: "fst (get_hyper_index 
       [''header'', ''r0'', ''r1'', ''r2'', ''r3'', ''r4'', ''r5'', ''r6'', ''r7'', ''r8'', ''r9'']
       (PInt 7) (PInt 3)
     \<lparr>del_dataset = Some 
       [''r0'', ''r1'', ''r2'', ''r3'', ''r4'', ''r5'', ''r6'', ''r7'', ''r8'', ''r9''],
      del_indexed_dataset = Some ((fst (indexed_dataset 
       [''header'', ''r0'', ''r1'', ''r2'', ''r3'', ''r4'', ''r5'', ''r6'', ''r7'', ''r8'', ''r9'']
      
          DelServer_init))(2 := None, 5 := None))\<rparr>) =
   Inr \<lparr>ip_index = PInt 7, ip_next_index = None, ip_page_size = 1, ip_data = [''r7'']\<rparr>"
    by (simp add: get_hyper_index_def indexed_dataset_def dataset_del_def DelServer_init_def
        Let_def upt_rec hyper_index_loop.simps)
  have live: "{i \<in> dom ((fst (indexed_dataset 
       [''header'', ''r0'', ''r1'', ''r2'', ''r3'', ''r4'', ''r5'', ''r6'', ''r7'', ''r8'', ''r9'']
      
          DelServer_init))(2 := None, 5 := None)). 7 \<le> i} = {7, 8, 9}"
    by (auto simp: indexed_dataset_def dataset_del_def DelServer_init_def Let_def upt_rec
        split: if_splits)
  from page live show ?thesis by (rule conjI)
qed

end
